theory Spec2Isabelle
  imports Main "HOL-Library.Word"
begin

section \<open>The image generator's view controller (src/App.tsx)\<close>

text \<open>
  The component \<open>App\<close> holds five \<open>useState\<close> variables and one ref, and defines five
  operations on them: editing the prompt, \<open>handleImageUpload\<close>, \<open>removeUploadedImage\<close>,
  \<open>handleSubmit\<close> and \<open>handleDownload\<close>. Each handler is modelled as a function from
  the browser's world and the component's state to the world and state it leaves behind.
  A handler reads the state variables of the render it was created in and its \<open>set...\<close>
  calls take effect in order, so a handler run to completion is a function of the state it
  started from. \<open>handleSubmit\<close> is asynchronous; it is modelled run to completion, with the
  outcome of its two awaited operations (reading the file, calling the service) given by
  an environment. What other handlers do while it waits is not part of this development;
  a state with the loading flag set stands for a call in flight.
\<close>

subsection \<open>Strings\<close>

text \<open>
  A string is a list of \<open>char\<close>, each read as the code unit of the same value (0 to 255).
  \<open>String.prototype.trim\<close> removes the ECMAScript white space and line terminators from
  both ends; those representable in a \<open>char\<close> are TAB, LF, VT, FF, CR, SPACE and NBSP.
\<close>

definition is_whitespace :: "char \<Rightarrow> bool" where
  "is_whitespace c = (of_char c \<in> {9, 10, 11, 12, 13, 32, 160 :: nat})"

definition trim :: "string \<Rightarrow> string" where
  "trim s = rev (dropWhile is_whitespace (rev (dropWhile is_whitespace s)))"

text \<open>
  \<open>s.split(sep)\<close> for a one-character separator: the pieces between the separators, one
  more than there are separators (\<open>"".split(",")\<close> is \<open>[""]\<close>).
\<close>

fun split :: "char \<Rightarrow> string \<Rightarrow> string list" where
  "split sep [] = [[]]"
| "split sep (c # cs) =
     (if c = sep then [] # split sep cs
      else (case split sep cs of
              [] \<Rightarrow> [[c]]
            | piece # pieces \<Rightarrow> (c # piece) # pieces))"

text \<open>Indexing an array: \<open>xs[i]\<close> is \<open>undefined\<close> (here \<open>None\<close>) past the end.\<close>

fun index :: "'a list \<Rightarrow> nat \<Rightarrow> 'a option" where
  "index [] i = None"
| "index (x # xs) 0 = Some x"
| "index (x # xs) (Suc i) = index xs i"

subsection \<open>Files, and what the browser's reader makes of them\<close>

type_synonym byte = "8 word"

record File =
  name :: string
  file_type :: string
  bytes :: "byte list"

text \<open>
  Base64 (RFC 4648, with padding): what \<open>FileReader.readAsDataURL\<close> puts after the comma
  of the data URL it produces.
\<close>

definition base64_alphabet :: string where
  "base64_alphabet = ''ABCDEFGHIJKLMNOPQRSTUVWXYZabcdefghijklmnopqrstuvwxyz0123456789+/''"

definition base64_digit :: "nat \<Rightarrow> char" where
  "base64_digit n = base64_alphabet ! (n mod 64)"

fun base64_encode :: "byte list \<Rightarrow> string" where
  "base64_encode [] = []"
| "base64_encode [a] =
     (let n = unat a * 65536
      in [base64_digit (n div 262144), base64_digit (n div 4096), CHR ''='', CHR ''=''])"
| "base64_encode [a, b] =
     (let n = unat a * 65536 + unat b * 256
      in [base64_digit (n div 262144), base64_digit (n div 4096), base64_digit (n div 64),
          CHR ''=''])"
| "base64_encode (a # b # c # rest) =
     (let n = unat a * 65536 + unat b * 256 + unat c
      in [base64_digit (n div 262144), base64_digit (n div 4096), base64_digit (n div 64),
          base64_digit n] @ base64_encode rest)"

subsection \<open>The component's state\<close>

text \<open>
  An object URL is an opaque token the browser issues (\<open>blob:...\<close>); the component only
  stores it and hands it back.
\<close>

datatype object_url = Blob nat

record uploaded =
  upload_file :: File
  preview :: object_url

record app_state =
  prompt :: string
  generatedImage :: "string option"
  uploadedImage :: "uploaded option"
  isLoading :: bool
  error :: "string option"

definition initial_state :: app_state where
  "initial_state =
     \<lparr>prompt = [], generatedImage = None, uploadedImage = None, isLoading = False,
      error = None\<rparr>"

subsection \<open>The browser and the generation service\<close>

text \<open>
  What a handler can do to the world outside the component is recorded in the world:
  the object URLs created and revoked, the calls made to the generation service, what was
  written to the console, the value of the file input the ref points to (\<open>None\<close> while
  no element is attached), the anchors under \<open>document.body\<close> and the downloads started
  by clicking one.
\<close>

record imageInput =
  data :: "string option"
  mimeType :: string

record request =
  req_prompt :: string
  req_image :: "imageInput option"

datatype cause = ReadError string | ServiceError string

record anchor =
  href :: string
  download :: string

record world =
  created :: "(object_url \<times> File) list"
  revoked :: "object_url list"
  requests :: "request list"
  console :: "cause list"
  fileInputRef :: "string option"
  body :: "anchor list"
  saved :: "anchor list"

definition initial_world :: world where
  "initial_world =
     \<lparr>created = [], revoked = [], requests = [], console = [], fileInputRef = Some [],
      body = [], saved = []\<rparr>"

text \<open>
  \<open>URL.createObjectURL\<close> never issues the same URL twice: the model numbers them, each
  above every number issued before. \<open>URL.revokeObjectURL\<close> is recorded call by call.
\<close>

fun blob_id :: "object_url \<Rightarrow> nat" where
  "blob_id (Blob n) = n"

definition fresh_id :: "nat list \<Rightarrow> nat" where
  "fresh_id ids = Suc (foldr max ids 0)"

definition createObjectURL :: "File \<Rightarrow> world \<Rightarrow> object_url \<times> world" where
  "createObjectURL f w =
     (let url = Blob (fresh_id (map (\<lambda>p. blob_id (fst p)) (created w)))
      in (url, w\<lparr>created := created w @ [(url, f)]\<rparr>))"

definition revokeObjectURL :: "object_url \<Rightarrow> world \<Rightarrow> world" where
  "revokeObjectURL url w = w\<lparr>revoked := revoked w @ [url]\<rparr>"

text \<open>
  The two operations \<open>handleSubmit\<close> awaits are outside the component: the browser's
  \<open>FileReader\<close> (its \<open>onload\<close> result or its \<open>onerror\<close> event) and \<open>generateImage\<close> of
  \<open>./services/geminiService\<close> (the promise resolves to a base64 string or rejects).
\<close>

record env =
  readAsDataURL :: "File \<Rightarrow> cause + string"
  generateImage :: "string \<Rightarrow> imageInput option \<Rightarrow> cause + string"

subsection \<open>The handlers\<close>

text \<open>
  Lines 14 to 23: the promise rejects with the reader's error, or resolves to the second
  of the pieces the reader's result splits into at its commas (\<open>undefined\<close> when the
  result has no comma).
\<close>

definition fileToBase64 :: "env \<Rightarrow> File \<Rightarrow> cause + string option" where
  "fileToBase64 e f =
     (case readAsDataURL e f of
        Inl err \<Rightarrow> Inl err
      | Inr result \<Rightarrow> Inr (index (split CHR '','' result) 1))"

text \<open>
  Lines 25 to 38. The argument is \<open>e.target.files\<close>: \<open>null\<close>, or the list of selected
  files.
\<close>

fun handleImageUpload :: "File list option \<Rightarrow> world \<times> app_state \<Rightarrow> world \<times> app_state" where
  "handleImageUpload None (w, st) = (w, st)"
| "handleImageUpload (Some []) (w, st) = (w, st)"
| "handleImageUpload (Some (f # fs)) (w, st) =
     (let w1 = (case uploadedImage st of
                  None \<Rightarrow> w
                | Some u \<Rightarrow> revokeObjectURL (preview u) w);
          (url, w2) = createObjectURL f w1
      in (w2, st\<lparr>uploadedImage := Some \<lparr>upload_file = f, preview = url\<rparr>,
                  generatedImage := None,
                  error := None\<rparr>))"

text \<open>Lines 40 to 48.\<close>

fun removeUploadedImage :: "world \<times> app_state \<Rightarrow> world \<times> app_state" where
  "removeUploadedImage (w, st) =
     (let w1 = (case uploadedImage st of
                  None \<Rightarrow> w
                | Some u \<Rightarrow> revokeObjectURL (preview u) w);
          st1 = st\<lparr>uploadedImage := None\<rparr>;
          w2 = (case fileInputRef w1 of
                  None \<Rightarrow> w1
                | Some v \<Rightarrow> w1\<lparr>fileInputRef := Some []\<rparr>)
      in (w2, st1))"

text \<open>
  Lines 50 to 77. \<open>e.preventDefault()\<close> acts on the event alone. \<open>imageInput_of\<close> is
  lines 59 to 66; \<open>generation\<close> is the whole \<open>try\<close> body up to the awaited call, with the
  call recorded when it is made; the \<open>catch\<close> and \<open>finally\<close> blocks follow in
  \<open>handleSubmit\<close>.
\<close>

definition imageInput_of :: "env \<Rightarrow> app_state \<Rightarrow> cause + imageInput option" where
  "imageInput_of e st =
     (case uploadedImage st of
        None \<Rightarrow> Inr None
      | Some u \<Rightarrow>
          (case fileToBase64 e (upload_file u) of
             Inl err \<Rightarrow> Inl err
           | Inr base64Data \<Rightarrow>
               Inr (Some \<lparr>data = base64Data, mimeType = file_type (upload_file u)\<rparr>)))"

definition generation :: "env \<Rightarrow> world \<Rightarrow> app_state \<Rightarrow> world \<times> (cause + string)" where
  "generation e w st =
     (case imageInput_of e st of
        Inl err \<Rightarrow> (w, Inl err)
      | Inr img \<Rightarrow>
          (w\<lparr>requests := requests w @ [\<lparr>req_prompt = prompt st, req_image = img\<rparr>]\<rparr>,
           generateImage e (prompt st) img))"

fun handleSubmit :: "env \<Rightarrow> world \<times> app_state \<Rightarrow> world \<times> app_state" where
  "handleSubmit e (w, st) =
     (if trim (prompt st) = [] \<or> isLoading st then (w, st)
      else
        let st1 = st\<lparr>isLoading := True, error := None, generatedImage := None\<rparr>
        in (case generation e w st of
              (w1, Inr base64Image) \<Rightarrow>
                (w1, st1\<lparr>generatedImage := Some (''data:image/png;base64,'' @ base64Image),
                         isLoading := False\<rparr>)
            | (w1, Inl err) \<Rightarrow>
                (w1\<lparr>console := console w1 @ [err]\<rparr>,
                 st1\<lparr>error := Some ''Failed to generate image. Please try again later.'',
                     isLoading := False\<rparr>)))"

text \<open>
  Lines 79 to 87. An empty string is falsy, so \<open>!generatedImage\<close> holds for \<open>null\<close> and
  for \<open>""\<close>. The anchor is appended as the last child of the body and that same node is
  removed again.
\<close>

fun handleDownload :: "world \<times> app_state \<Rightarrow> world \<times> app_state" where
  "handleDownload (w, st) =
     (case generatedImage st of
        None \<Rightarrow> (w, st)
      | Some url \<Rightarrow>
          if url = [] then (w, st)
          else
            let link = \<lparr>href = url, download = ''generated-image.png''\<rparr>;
                w1 = w\<lparr>body := body w @ [link]\<rparr>;
                w2 = w1\<lparr>saved := saved w1 @ [link]\<rparr>;
                w3 = w2\<lparr>body := butlast (body w2)\<rparr>
            in (w3, st))"

subsection \<open>Sessions\<close>

text \<open>
  A session is the list of operations the user completes, in order, from the freshly
  mounted component. A submission carries the environment that decides how its reading
  and its service call turn out.
\<close>

datatype event =
  EditPrompt string
| Upload "File list option"
| RemoveUpload
| Submit env
| Download

fun perform :: "event \<Rightarrow> world \<times> app_state \<Rightarrow> world \<times> app_state" where
  "perform (EditPrompt s) (w, st) = (w, st\<lparr>prompt := s\<rparr>)"
| "perform (Upload files) c = handleImageUpload files c"
| "perform RemoveUpload c = removeUploadedImage c"
| "perform (Submit e) c = handleSubmit e c"
| "perform Download c = handleDownload c"

definition run :: "event list \<Rightarrow> world \<times> app_state" where
  "run evs = foldl (\<lambda>c ev. perform ev c) (initial_world, initial_state) evs"

text \<open>
  The object URLs still alive: created and never revoked, in the order of creation.
\<close>

definition live_urls :: "world \<Rightarrow> object_url list" where
  "live_urls w = filter (\<lambda>url. url \<notin> set (revoked w)) (map fst (created w))"

text \<open>
  The bookkeeping of object URLs in a world and state: no URL was revoked twice, only
  created URLs were revoked, and the one URL still alive is the preview of the uploaded
  image, if there is one.
\<close>

definition urls_accounted :: "world \<times> app_state \<Rightarrow> bool" where
  "urls_accounted c =
     (case c of (w, st) \<Rightarrow>
        distinct (revoked w) \<and>
        set (revoked w) \<subseteq> fst ` set (created w) \<and>
        live_urls w = (case uploadedImage st of None \<Rightarrow> [] | Some u \<Rightarrow> [preview u]))"

text \<open>At most one of a list of conditions holds.\<close>

definition at_most_one :: "bool list \<Rightarrow> bool" where
  "at_most_one bs = (length (filter (\<lambda>b. b) bs) \<le> 1)"

subsection \<open>Example inputs\<close>

text \<open>
  A reader that behaves as the File API describes, a service that answers every call with
  the same base64 string, one that rejects every call, a reader that fails, and a small
  JPEG and PNG (their first bytes).
\<close>

definition browser_reader :: "File \<Rightarrow> cause + string" where
  "browser_reader f = Inr (''data:'' @ file_type f @ '';base64,'' @ base64_encode (bytes f))"

definition answering :: "string \<Rightarrow> env" where
  "answering s = \<lparr>readAsDataURL = browser_reader, generateImage = (\<lambda>p img. Inr s)\<rparr>"

definition rejecting :: "cause \<Rightarrow> env" where
  "rejecting c = \<lparr>readAsDataURL = browser_reader, generateImage = (\<lambda>p img. Inl c)\<rparr>"

definition unreadable :: "cause \<Rightarrow> env" where
  "unreadable c = \<lparr>readAsDataURL = (\<lambda>f. Inl c), generateImage = (\<lambda>p img. Inr ''Zm9v'')\<rparr>"

definition jpeg :: File where
  "jpeg = \<lparr>name = ''cat.jpg'', file_type = ''image/jpeg'', bytes = [0xFF, 0xD8, 0xFF, 0xE0]\<rparr>"

definition png :: File where
  "png = \<lparr>name = ''dog.png'', file_type = ''image/png'', bytes = [0x89, 0x50, 0x4E, 0x47]\<rparr>"

section \<open>Properties\<close>

subsection \<open>Strings and base64\<close>

text \<open>A string trims to nothing exactly when it is empty or all white space.\<close>

lemma trim_empty_iff: "trim s = [] \<longleftrightarrow> (\<forall>c\<in>set s. is_whitespace c)"
proof -
  have "dropWhile is_whitespace (rev (dropWhile is_whitespace s)) = []
          \<longleftrightarrow> dropWhile is_whitespace s = []"
  proof (cases "dropWhile is_whitespace s")
    case Nil
    then show ?thesis by (auto dest: set_dropWhileD)
  next
    case (Cons c cs)
    then have "\<not> is_whitespace c"
      by (metis hd_dropWhile list.distinct(1) list.sel(1))
    with Cons show ?thesis
      by auto
  qed
  then show ?thesis
    by (simp add: trim_def)
qed

lemma base64_digit_in_alphabet: "base64_digit n \<in> set base64_alphabet"
proof -
  have "n mod 64 < length base64_alphabet"
    by (simp add: base64_alphabet_def)
  then show ?thesis
    unfolding base64_digit_def by (rule nth_mem)
qed

lemma base64_digit_not_comma: "base64_digit n \<noteq> CHR '',''"
proof
  assume "base64_digit n = CHR '',''"
  with base64_digit_in_alphabet [of n] have "CHR '','' \<in> set base64_alphabet"
    by simp
  then show False
    by (simp add: base64_alphabet_def)
qed

lemma base64_encode_no_comma: "CHR '','' \<notin> set (base64_encode bs)"
  by (induction bs rule: base64_encode.induct)
     (simp_all add: Let_def base64_digit_not_comma [symmetric])

lemma split_no_separator: "sep \<notin> set s \<Longrightarrow> split sep s = [s]"
  by (induction s) auto

lemma split_at_first: "sep \<notin> set xs \<Longrightarrow> split sep (xs @ sep # ys) = xs # split sep ys"
  by (induction xs) auto

lemma split_data_url:
  assumes "sep \<notin> set hdr" and "sep \<notin> set payload"
  shows "index (split sep (hdr @ sep # payload)) (Suc 0) = Some payload"
  using assms by (simp add: split_at_first split_no_separator)

text \<open>
  When the reader yields a data URL (a header without a comma, a comma, the base64 of the
  file's bytes), \<open>fileToBase64\<close> resolves to that base64 string.
\<close>

lemma fileToBase64_data_url:
  assumes "readAsDataURL e f = Inr (hdr @ CHR '','' # base64_encode (bytes f))"
    and "CHR '','' \<notin> set hdr"
  shows "fileToBase64 e f = Inr (Some (base64_encode (bytes f)))"
  using assms by (simp add: fileToBase64_def split_data_url base64_encode_no_comma)

subsection \<open>Object URLs\<close>

lemma foldr_max_ge: "(n::nat) \<in> set ns \<Longrightarrow> n \<le> foldr max ns 0"
  by (induction ns) (auto simp: le_max_iff_disj)

lemma fresh_id_new: "fresh_id ns \<notin> set ns"
  using foldr_max_ge [of "fresh_id ns" ns] by (auto simp: fresh_id_def)

lemma createObjectURL_new:
  assumes "createObjectURL f w = (url, w')"
  shows "url \<notin> fst ` set (created w)" and "w' = w\<lparr>created := created w @ [(url, f)]\<rparr>"
proof -
  let ?ids = "map (\<lambda>p. blob_id (fst p)) (created w)"
  from assms have url: "url = Blob (fresh_id ?ids)"
    and w': "w' = w\<lparr>created := created w @ [(url, f)]\<rparr>"
    by (auto simp: createObjectURL_def Let_def)
  show "url \<notin> fst ` set (created w)"
  proof
    assume "url \<in> fst ` set (created w)"
    then have "blob_id url \<in> set ?ids" by force
    with url fresh_id_new [of ?ids] show False by simp
  qed
  show "w' = w\<lparr>created := created w @ [(url, f)]\<rparr>" by (rule w')
qed

subsection \<open>The submit handler, path by path\<close>

text \<open>
  The handler has three paths: the guard of line 52 returns at once; past it, the awaited
  generation either resolves (line 70) or rejects (the \<open>catch\<close> block); the \<open>finally\<close>
  block ends both.
\<close>

lemma handleSubmit_success:
  assumes "trim (prompt st) \<noteq> []" and "\<not> isLoading st"
    and "generation e w st = (w1, Inr base64Image)"
  shows "handleSubmit e (w, st) =
           (w1, st\<lparr>isLoading := False, error := None,
                   generatedImage := Some (''data:image/png;base64,'' @ base64Image)\<rparr>)"
  using assms by (simp add: Let_def)

lemma handleSubmit_failure:
  assumes "trim (prompt st) \<noteq> []" and "\<not> isLoading st"
    and "generation e w st = (w1, Inl err)"
  shows "handleSubmit e (w, st) =
           (w1\<lparr>console := console w1 @ [err]\<rparr>,
            st\<lparr>isLoading := False, generatedImage := None,
               error := Some ''Failed to generate image. Please try again later.''\<rparr>)"
  using assms by (simp add: Let_def)

lemma handleSubmit_blocked:
  assumes "trim (prompt st) = [] \<or> isLoading st"
  shows "handleSubmit e (w, st) = (w, st)"
  using assms by auto

declare handleSubmit.simps [simp del]

lemma generation_requests:
  "fst (generation e w st) =
     w\<lparr>requests := requests w @
        (case imageInput_of e st of
           Inl err \<Rightarrow> []
         | Inr img \<Rightarrow> [\<lparr>req_prompt = prompt st, req_image = img\<rparr>])\<rparr>"
  by (simp add: generation_def split: sum.split)

lemma generation_no_upload:
  assumes "uploadedImage st = None"
  shows "generation e w st =
           (w\<lparr>requests := requests w @ [\<lparr>req_prompt = prompt st, req_image = None\<rparr>]\<rparr>,
            generateImage e (prompt st) None)"
  using assms by (simp add: generation_def imageInput_of_def)

lemma generation_console: "console (fst (generation e w st)) = console w"
  by (simp add: generation_def split: sum.split)

lemma generation_rejects:
  assumes "(\<exists>u. uploadedImage st = Some u \<and> fileToBase64 e (upload_file u) = Inl err) \<or>
           (\<exists>img. imageInput_of e st = Inr img \<and> generateImage e (prompt st) img = Inl err)"
  shows "snd (generation e w st) = Inl err"
  using assms by (auto simp: generation_def imageInput_of_def)

lemma handleSubmit_requests:
  assumes "trim (prompt st) \<noteq> []" and "\<not> isLoading st"
  shows "requests (fst (handleSubmit e (w, st))) =
           requests w @
             (case imageInput_of e st of
                Inl err \<Rightarrow> []
              | Inr img \<Rightarrow> [\<lparr>req_prompt = prompt st, req_image = img\<rparr>])"
proof -
  obtain w1 res where gen: "generation e w st = (w1, res)"
    by (cases "generation e w st")
  have "requests (fst (handleSubmit e (w, st))) = requests w1"
  proof (cases res)
    case (Inl err)
    with gen handleSubmit_failure [OF assms, of e w w1 err] show ?thesis by simp
  next
    case (Inr b)
    with gen handleSubmit_success [OF assms, of e w w1 b] show ?thesis by simp
  qed
  also have "w1 = fst (generation e w st)"
    using gen by simp
  finally show ?thesis
    by (simp add: generation_requests)
qed

text \<open>The definitions that evaluate the handlers on the example inputs.\<close>

lemmas example_defs =
  run_def initial_world_def initial_state_def createObjectURL_def revokeObjectURL_def
  fresh_id_def Let_def jpeg_def png_def handleSubmit.simps trim_def is_whitespace_def
  generation_def imageInput_of_def fileToBase64_def answering_def rejecting_def
  unreadable_def browser_reader_def base64_digit_def base64_alphabet_def

subsection \<open>C1: a successful generation without an upload\<close>

text \<open>
  C1. For every submission with a non-blank prompt and no uploaded image: if the handler
  issues the call to the generation service and the call resolves to a base64 string
  \<open>s\<close>, then when the handler completes the generated image is
  \<open>data:image/png;base64,\<close> followed by \<open>s\<close>, the error is \<open>null\<close> and the loading flag
  is false. The example of the specification (prompt "A red balloon", answer "Zm9v") is
  the instance that follows the theorem.
\<close>

theorem submit_success_shows_data_url:
  assumes "trim (prompt st) \<noteq> []"
    and "uploadedImage st = None"
    and "handleSubmit e (w, st) = (w', st')"
    and "requests w' = requests w @ [r]"
    and "generateImage e (req_prompt r) (req_image r) = Inr s"
  shows "generatedImage st' = Some (''data:image/png;base64,'' @ s) \<and>
         error st' = None \<and> \<not> isLoading st'"
proof (cases "isLoading st")
  case True
  with assms(3) have "w' = w" by (simp add: handleSubmit_blocked)
  with assms(4) show ?thesis by simp
next
  case False
  let ?w1 = "w\<lparr>requests := requests w @ [\<lparr>req_prompt = prompt st, req_image = None\<rparr>]\<rparr>"
  have gen: "generation e w st = (?w1, generateImage e (prompt st) None)"
    using assms(2) by (rule generation_no_upload)
  have sent: "requests w' = requests ?w1"
  proof (cases "generateImage e (prompt st) None")
    case (Inl err)
    with gen have "generation e w st = (?w1, Inl err)" by simp
    from handleSubmit_failure [OF assms(1) False this] assms(3)
    show ?thesis by simp
  next
    case (Inr b)
    with gen have "generation e w st = (?w1, Inr b)" by simp
    from handleSubmit_success [OF assms(1) False this] assms(3)
    show ?thesis by simp
  qed
  with assms(4) have "r = \<lparr>req_prompt = prompt st, req_image = None\<rparr>"
    by simp
  with assms(5) have "generateImage e (prompt st) None = Inr s"
    by simp
  with gen have "generation e w st = (?w1, Inr s)" by simp
  from handleSubmit_success [OF assms(1) False this] assms(3)
  show ?thesis by auto
qed

theorem submit_success_shows_data_url_witness:
  "trim ''A red balloon'' \<noteq> [] \<and>
   generatedImage (snd (handleSubmit (answering ''Zm9v'')
        (initial_world, initial_state\<lparr>prompt := ''A red balloon''\<rparr>)))
     = Some ''data:image/png;base64,Zm9v'' \<and>
   error (snd (handleSubmit (answering ''Zm9v'')
        (initial_world, initial_state\<lparr>prompt := ''A red balloon''\<rparr>))) = None \<and>
   \<not> isLoading (snd (handleSubmit (answering ''Zm9v'')
        (initial_world, initial_state\<lparr>prompt := ''A red balloon''\<rparr>)))"
proof -
  let ?st = "initial_state\<lparr>prompt := ''A red balloon''\<rparr>"
  let ?c = "handleSubmit (answering ''Zm9v'') (initial_world, ?st)"
  have nonblank: "trim (prompt ?st) \<noteq> []"
    by (simp add: trim_def is_whitespace_def)
  have noimg: "uploadedImage ?st = None"
    by (simp add: initial_state_def)
  have run: "handleSubmit (answering ''Zm9v'') (initial_world, ?st) = (fst ?c, snd ?c)"
    by simp
  have call: "requests (fst ?c) =
        requests initial_world @ [\<lparr>req_prompt = ''A red balloon'', req_image = None\<rparr>]"
    by (simp add: handleSubmit.simps trim_def is_whitespace_def initial_state_def initial_world_def
          generation_def imageInput_of_def answering_def)
  have answer: "generateImage (answering ''Zm9v'')
        (req_prompt \<lparr>req_prompt = ''A red balloon'', req_image = None\<rparr>)
        (req_image \<lparr>req_prompt = ''A red balloon'', req_image = None\<rparr>) = Inr ''Zm9v''"
    by (simp add: answering_def)
  from submit_success_shows_data_url [OF nonblank noimg run call answer] nonblank
  show ?thesis by simp
qed

subsection \<open>C5: blank prompts and submissions while a call is in flight\<close>

text \<open>
  C5. In every state whose prompt trims to the empty string (it is empty or all white
  space, by \<open>trim_empty_iff\<close>) or whose loading flag is true, the submit handler leaves
  the world as it was, so no call to the generation service is issued, and leaves the
  state as it was, so none of the five state variables changes.
\<close>

theorem blocked_submit_is_noop:
  assumes "trim (prompt st) = [] \<or> isLoading st"
  shows "handleSubmit e (w, st) = (w, st)"
  using assms by (rule handleSubmit_blocked)

theorem blocked_submit_is_noop_witness:
  "trim ''  '' = [] \<and>
   handleSubmit (answering ''Zm9v'') (initial_world, initial_state\<lparr>prompt := ''  ''\<rparr>)
     = (initial_world, initial_state\<lparr>prompt := ''  ''\<rparr>) \<and>
   handleSubmit (answering ''Zm9v'')
       (initial_world, initial_state\<lparr>prompt := ''A red balloon'', isLoading := True\<rparr>)
     = (initial_world, initial_state\<lparr>prompt := ''A red balloon'', isLoading := True\<rparr>)"
proof -
  have blank: "trim ''  '' = []"
    by (simp add: trim_def is_whitespace_def)
  then have 1: "trim (prompt (initial_state\<lparr>prompt := ''  ''\<rparr>)) = [] \<or>
                isLoading (initial_state\<lparr>prompt := ''  ''\<rparr>)"
    by simp
  have 2: "trim (prompt (initial_state\<lparr>prompt := ''A red balloon'', isLoading := True\<rparr>)) = [] \<or>
           isLoading (initial_state\<lparr>prompt := ''A red balloon'', isLoading := True\<rparr>)"
    by simp
  from blank blocked_submit_is_noop [OF 1] blocked_submit_is_noop [OF 2]
  show ?thesis by blast
qed

subsection \<open>C2: what the generation service is called with\<close>

text \<open>
  C2, as the code has it. The claim says that every submission with a non-blank prompt
  invokes the call. The handler invokes none while a call is in flight (the guard of
  line 52) and none when reading the uploaded file fails (the rejection of line 22 is
  caught at line 71, before line 68 is reached): the reachable state with the prompt
  "edit this" and an uploaded JPEG shows both.
\<close>

theorem submit_without_call_counterexample:
  "trim (prompt (snd (run [EditPrompt ''edit this'', Upload (Some [jpeg])]))) \<noteq> [] \<and>
   uploadedImage (snd (run [EditPrompt ''edit this'', Upload (Some [jpeg])]))
     = Some \<lparr>upload_file = jpeg, preview = Blob 1\<rparr> \<and>
   requests (fst (handleSubmit (unreadable (ReadError ''NotReadableError''))
        (run [EditPrompt ''edit this'', Upload (Some [jpeg])]))) = [] \<and>
   requests (fst (handleSubmit (answering ''Zm9v'')
        (fst (run [EditPrompt ''edit this'', Upload (Some [jpeg])]),
         snd (run [EditPrompt ''edit this'', Upload (Some [jpeg])])\<lparr>isLoading := True\<rparr>))) = []"
  by (simp add: example_defs)

text \<open>
  C2, amended. For every submission with a non-blank prompt: while a call is in flight no
  call is issued. With no call in flight: if no image is uploaded, the service is called
  once, with the stored prompt and no image payload; if an image is uploaded and the
  reader yields its data URL (a header without a comma, a comma, the base64 encoding of
  the file's bytes), the service is called once, with the stored prompt and a payload
  whose \<open>data\<close> is that base64 encoding and whose \<open>mimeType\<close> is the file's declared
  type; if an image is uploaded and reading it fails, no call is issued.
\<close>

theorem submit_request_payload:
  assumes "trim (prompt st) \<noteq> []"
    and "handleSubmit e (w, st) = (w', st')"
  shows "(isLoading st \<longrightarrow> requests w' = requests w) \<and>
         (\<not> isLoading st \<and> uploadedImage st = None \<longrightarrow>
            requests w' = requests w @ [\<lparr>req_prompt = prompt st, req_image = None\<rparr>]) \<and>
         (\<forall>u hdr.
            \<not> isLoading st \<and>
            uploadedImage st = Some u \<and>
            readAsDataURL e (upload_file u)
              = Inr (hdr @ CHR '','' # base64_encode (bytes (upload_file u))) \<and>
            CHR '','' \<notin> set hdr \<longrightarrow>
            requests w' =
              requests w @
                [\<lparr>req_prompt = prompt st,
                  req_image = Some \<lparr>data = Some (base64_encode (bytes (upload_file u))),
                                     mimeType = file_type (upload_file u)\<rparr>\<rparr>]) \<and>
         (\<forall>u err.
            \<not> isLoading st \<and>
            uploadedImage st = Some u \<and>
            readAsDataURL e (upload_file u) = Inl err \<longrightarrow>
            requests w' = requests w)"
proof -
  have blocked: "requests w' = requests w" if "isLoading st"
    using that assms(2) by (simp add: handleSubmit_blocked)
  have sent: "requests w' =
      requests w @
        (case imageInput_of e st of
           Inl err \<Rightarrow> []
         | Inr img \<Rightarrow> [\<lparr>req_prompt = prompt st, req_image = img\<rparr>])"
    if "\<not> isLoading st"
    using handleSubmit_requests [OF assms(1) that, of e w] assms(2) by simp
  have plain: "requests w' = requests w @ [\<lparr>req_prompt = prompt st, req_image = None\<rparr>]"
    if "\<not> isLoading st" and "uploadedImage st = None"
    using sent [OF that(1)] that(2) by (simp add: imageInput_of_def)
  have payload: "requests w' =
      requests w @
        [\<lparr>req_prompt = prompt st,
          req_image = Some \<lparr>data = Some (base64_encode (bytes (upload_file u))),
                             mimeType = file_type (upload_file u)\<rparr>\<rparr>]"
    if "\<not> isLoading st" and "uploadedImage st = Some u"
      and "readAsDataURL e (upload_file u)
             = Inr (hdr @ CHR '','' # base64_encode (bytes (upload_file u)))"
      and "CHR '','' \<notin> set hdr"
    for u hdr
    using sent [OF that(1)] that(2) fileToBase64_data_url [OF that(3,4)]
    by (simp add: imageInput_of_def)
  have unread: "requests w' = requests w"
    if "\<not> isLoading st" and "uploadedImage st = Some u"
      and "readAsDataURL e (upload_file u) = Inl err"
    for u err
    using sent [OF that(1)] that(2,3)
    by (simp add: imageInput_of_def fileToBase64_def)
  from blocked plain payload unread show ?thesis by blast
qed

theorem submit_request_payload_witness:
  "trim ''edit this'' \<noteq> [] \<and>
   requests (fst (handleSubmit (answering ''Zm9v'')
        (run [EditPrompt ''edit this'', Upload (Some [jpeg])])))
     = [\<lparr>req_prompt = ''edit this'',
         req_image = Some \<lparr>data = Some ''/9j/4A=='', mimeType = ''image/jpeg''\<rparr>\<rparr>] \<and>
   requests (fst (handleSubmit (answering ''Zm9v'')
        (initial_world, initial_state\<lparr>prompt := ''A red balloon''\<rparr>)))
     = [\<lparr>req_prompt = ''A red balloon'', req_image = None\<rparr>] \<and>
   requests (fst (handleSubmit (unreadable (ReadError ''NotReadableError''))
        (run [EditPrompt ''edit this'', Upload (Some [jpeg])]))) = [] \<and>
   requests (fst (handleSubmit (answering ''Zm9v'')
        (initial_world, initial_state\<lparr>prompt := ''A red balloon'', isLoading := True\<rparr>))) = []"
proof -
  let ?e = "answering ''Zm9v''"
  let ?u = "\<lparr>upload_file = jpeg, preview = Blob 1\<rparr>"
  let ?w = "initial_world\<lparr>created := [(Blob 1, jpeg)]\<rparr>"
  let ?st = "initial_state\<lparr>prompt := ''edit this'', uploadedImage := Some ?u\<rparr>"
  let ?c = "handleSubmit ?e (?w, ?st)"
  have session: "run [EditPrompt ''edit this'', Upload (Some [jpeg])] = (?w, ?st)"
    by (simp add: run_def initial_world_def initial_state_def createObjectURL_def
          fresh_id_def Let_def)
  have nonblank: "trim (prompt ?st) \<noteq> []"
    by (simp add: trim_def is_whitespace_def)
  have idle: "\<not> isLoading ?st"
    by (simp add: initial_state_def)
  have run: "handleSubmit ?e (?w, ?st) = (fst ?c, snd ?c)"
    by simp
  have up: "uploadedImage ?st = Some ?u"
    by simp
  have encoded: "base64_encode (bytes jpeg) = ''/9j/4A==''"
    by (simp add: jpeg_def base64_digit_def base64_alphabet_def)
  have read: "readAsDataURL ?e (upload_file ?u)
      = Inr (''data:image/jpeg;base64'' @ CHR '','' # base64_encode (bytes (upload_file ?u)))"
    by (simp add: answering_def browser_reader_def jpeg_def)
  have hdr: "CHR '','' \<notin> set ''data:image/jpeg;base64''"
    by simp
  have mime: "file_type jpeg = ''image/jpeg''"
    by (simp add: jpeg_def)
  have w0: "requests initial_world = []"
    by (simp add: initial_world_def)
  from submit_request_payload [OF nonblank run] idle up read hdr
  have "requests (fst ?c) =
      requests ?w @
        [\<lparr>req_prompt = prompt ?st,
          req_image = Some \<lparr>data = Some (base64_encode (bytes (upload_file ?u))),
                             mimeType = file_type (upload_file ?u)\<rparr>\<rparr>]"
    by blast
  then have first: "requests (fst (handleSubmit ?e
        (run [EditPrompt ''edit this'', Upload (Some [jpeg])])))
      = [\<lparr>req_prompt = ''edit this'',
          req_image = Some \<lparr>data = Some ''/9j/4A=='', mimeType = ''image/jpeg''\<rparr>\<rparr>]"
    by (simp add: session encoded mime w0)
  let ?st2 = "initial_state\<lparr>prompt := ''A red balloon''\<rparr>"
  let ?d = "handleSubmit ?e (initial_world, ?st2)"
  have nonblank2: "trim (prompt ?st2) \<noteq> []"
    by (simp add: trim_def is_whitespace_def)
  have idle2: "\<not> isLoading ?st2"
    by (simp add: initial_state_def)
  have run2: "handleSubmit ?e (initial_world, ?st2) = (fst ?d, snd ?d)"
    by simp
  have "uploadedImage ?st2 = None"
    by (simp add: initial_state_def)
  with submit_request_payload [OF nonblank2 run2] idle2
  have second: "requests (fst ?d) = [\<lparr>req_prompt = ''A red balloon'', req_image = None\<rparr>]"
    by (simp add: initial_world_def)
  let ?f = "unreadable (ReadError ''NotReadableError'')"
  let ?g = "handleSubmit ?f (?w, ?st)"
  have run3: "handleSubmit ?f (?w, ?st) = (fst ?g, snd ?g)"
    by simp
  have failed: "readAsDataURL ?f (upload_file ?u) = Inl (ReadError ''NotReadableError'')"
    by (simp add: unreadable_def)
  from submit_request_payload [OF nonblank run3] idle up failed
  have "requests (fst ?g) = requests ?w"
    by blast
  then have third: "requests (fst (handleSubmit ?f
        (run [EditPrompt ''edit this'', Upload (Some [jpeg])]))) = []"
    by (simp add: session w0)
  let ?st4 = "initial_state\<lparr>prompt := ''A red balloon'', isLoading := True\<rparr>"
  let ?h = "handleSubmit ?e (initial_world, ?st4)"
  have nonblank4: "trim (prompt ?st4) \<noteq> []"
    by (simp add: trim_def is_whitespace_def)
  have run4: "handleSubmit ?e (initial_world, ?st4) = (fst ?h, snd ?h)"
    by simp
  have "isLoading ?st4"
    by simp
  with submit_request_payload [OF nonblank4 run4]
  have fourth: "requests (fst ?h) = []"
    by (simp add: initial_world_def)
  from nonblank first second third fourth show ?thesis by simp
qed

subsection \<open>C4: a failed generation\<close>

text \<open>
  C4. For every submission that runs (non-blank prompt, no call in flight), the loading
  flag is false when the handler completes, whether the generation succeeded or failed.
  If reading the uploaded file failed, or the call to the service failed, with cause
  \<open>err\<close>, then the generated image is \<open>null\<close>, the error is the fixed message
  "Failed to generate image. Please try again later." (the same for every cause, so it
  carries nothing of \<open>err\<close>), and \<open>err\<close> is what was written to the console.
\<close>

theorem failed_generation_reports_generic_error:
  assumes "trim (prompt st) \<noteq> []" and "\<not> isLoading st"
    and "handleSubmit e (w, st) = (w', st')"
  shows "\<not> isLoading st' \<and>
         (((\<exists>u. uploadedImage st = Some u \<and> fileToBase64 e (upload_file u) = Inl err) \<or>
           (\<exists>img. imageInput_of e st = Inr img \<and> generateImage e (prompt st) img = Inl err))
          \<longrightarrow> generatedImage st' = None \<and>
              error st' = Some ''Failed to generate image. Please try again later.'' \<and>
              console w' = console w @ [err])"
proof -
  obtain w1 res where gen: "generation e w st = (w1, res)"
    by (cases "generation e w st")
  then have w1: "console w1 = console w"
    using generation_console [of e w st] by simp
  show ?thesis
  proof (cases res)
    case (Inl cause)
    with gen have "generation e w st = (w1, Inl cause)" by simp
    from handleSubmit_failure [OF assms(1,2) this] assms(3)
    have "\<not> isLoading st'" and "generatedImage st' = None"
      and "error st' = Some ''Failed to generate image. Please try again later.''"
      and "console w' = console w @ [cause]"
      using w1 by auto
    moreover have "cause = err"
      if "(\<exists>u. uploadedImage st = Some u \<and> fileToBase64 e (upload_file u) = Inl err) \<or>
          (\<exists>img. imageInput_of e st = Inr img \<and> generateImage e (prompt st) img = Inl err)"
      using generation_rejects [OF that, of w] gen Inl by simp
    ultimately show ?thesis by blast
  next
    case (Inr b)
    with gen have "generation e w st = (w1, Inr b)" by simp
    from handleSubmit_success [OF assms(1,2) this] assms(3)
    have "\<not> isLoading st'" by auto
    moreover have False
      if "(\<exists>u. uploadedImage st = Some u \<and> fileToBase64 e (upload_file u) = Inl err) \<or>
          (\<exists>img. imageInput_of e st = Inr img \<and> generateImage e (prompt st) img = Inl err)"
      using generation_rejects [OF that, of w] gen Inr by simp
    ultimately show ?thesis by blast
  qed
qed

theorem failed_generation_reports_generic_error_witness:
  "trim ''A red balloon'' \<noteq> [] \<and>
   \<not> isLoading (snd (handleSubmit (rejecting (ServiceError ''quota exceeded''))
        (initial_world, initial_state\<lparr>prompt := ''A red balloon''\<rparr>))) \<and>
   generatedImage (snd (handleSubmit (rejecting (ServiceError ''quota exceeded''))
        (initial_world, initial_state\<lparr>prompt := ''A red balloon''\<rparr>))) = None \<and>
   error (snd (handleSubmit (rejecting (ServiceError ''quota exceeded''))
        (initial_world, initial_state\<lparr>prompt := ''A red balloon''\<rparr>)))
     = Some ''Failed to generate image. Please try again later.'' \<and>
   console (fst (handleSubmit (rejecting (ServiceError ''quota exceeded''))
        (initial_world, initial_state\<lparr>prompt := ''A red balloon''\<rparr>)))
     = [ServiceError ''quota exceeded'']"
proof -
  let ?e = "rejecting (ServiceError ''quota exceeded'')"
  let ?st = "initial_state\<lparr>prompt := ''A red balloon''\<rparr>"
  let ?c = "handleSubmit ?e (initial_world, ?st)"
  have nonblank: "trim (prompt ?st) \<noteq> []"
    by (simp add: trim_def is_whitespace_def)
  have idle: "\<not> isLoading ?st"
    by (simp add: initial_state_def)
  have run: "handleSubmit ?e (initial_world, ?st) = (fst ?c, snd ?c)"
    by simp
  have rejected: "\<exists>img. imageInput_of ?e ?st = Inr img \<and>
      generateImage ?e (prompt ?st) img = Inl (ServiceError ''quota exceeded'')"
    by (simp add: imageInput_of_def initial_state_def rejecting_def)
  have "console initial_world = []"
    by (simp add: initial_world_def)
  with failed_generation_reports_generic_error
         [OF nonblank idle run, of "ServiceError ''quota exceeded''"] rejected nonblank
  show ?thesis by simp
qed

subsection \<open>C10: the prompt is sent untrimmed\<close>

text \<open>
  C10. For every submission that proceeds past the guard, the calls the handler issues
  are: none when encoding the upload fails, and otherwise exactly one, whose prompt is the
  stored prompt itself. The prompt "  a cat  " trims to "a cat" and is sent with its
  spaces.
\<close>

theorem submit_sends_prompt_verbatim:
  assumes "trim (prompt st) \<noteq> []" and "\<not> isLoading st"
    and "handleSubmit e (w, st) = (w', st')"
  shows "requests w' =
           requests w @
             (case imageInput_of e st of
                Inl err \<Rightarrow> []
              | Inr img \<Rightarrow> [\<lparr>req_prompt = prompt st, req_image = img\<rparr>])"
  using handleSubmit_requests [OF assms(1,2), of e w] assms(3) by simp

theorem submit_sends_prompt_verbatim_witness:
  "trim ''  a cat  '' = ''a cat'' \<and>
   requests (fst (handleSubmit (answering ''Zm9v'')
        (initial_world, initial_state\<lparr>prompt := ''  a cat  ''\<rparr>)))
     = [\<lparr>req_prompt = ''  a cat  '', req_image = None\<rparr>]"
proof -
  let ?e = "answering ''Zm9v''"
  let ?st = "initial_state\<lparr>prompt := ''  a cat  ''\<rparr>"
  let ?c = "handleSubmit ?e (initial_world, ?st)"
  have trimmed: "trim ''  a cat  '' = ''a cat''"
    by (simp add: trim_def is_whitespace_def)
  then have nonblank: "trim (prompt ?st) \<noteq> []"
    by simp
  have idle: "\<not> isLoading ?st"
    by (simp add: initial_state_def)
  have run: "handleSubmit ?e (initial_world, ?st) = (fst ?c, snd ?c)"
    by simp
  have "imageInput_of ?e ?st = Inr None"
    by (simp add: imageInput_of_def initial_state_def)
  moreover have "requests initial_world = []"
    by (simp add: initial_world_def)
  ultimately show ?thesis
    using submit_sends_prompt_verbatim [OF nonblank idle run] trimmed by simp
qed

subsection \<open>C3: what drives the output pane\<close>

text \<open>
  Every operation that runs to completion leaves the loading flag false, and leaves at
  most one of the error and the generated image set: the submit handler clears both
  before it sets one, the upload handler clears both, and nothing else writes them.
\<close>

lemma run_snoc: "run (evs @ [ev]) = perform ev (run evs)"
  by (simp add: run_def)

lemma handleSubmit_frame:
  "created (fst (handleSubmit e (w, st))) = created w \<and>
   revoked (fst (handleSubmit e (w, st))) = revoked w \<and>
   uploadedImage (snd (handleSubmit e (w, st))) = uploadedImage st"
proof (cases "trim (prompt st) = [] \<or> isLoading st")
  case True
  then show ?thesis by (simp add: handleSubmit_blocked)
next
  case False
  then have go: "trim (prompt st) \<noteq> []" "\<not> isLoading st" by simp_all
  obtain w1 res where gen: "generation e w st = (w1, res)"
    by (cases "generation e w st")
  then have w1: "created w1 = created w" "revoked w1 = revoked w"
    using generation_requests [of e w st] by simp_all
  show ?thesis
  proof (cases res)
    case (Inl err)
    with gen handleSubmit_failure [OF go, of e w w1 err] w1 show ?thesis by simp
  next
    case (Inr b)
    with gen handleSubmit_success [OF go, of e w w1 b] w1 show ?thesis by simp
  qed
qed

lemma handleSubmit_settles:
  assumes "handleSubmit e (w, st) = (w', st')"
    and "\<not> isLoading st" and "error st = None \<or> generatedImage st = None"
  shows "\<not> isLoading st' \<and> (error st' = None \<or> generatedImage st' = None)"
proof (cases "trim (prompt st) = []")
  case True
  with assms show ?thesis by (simp add: handleSubmit_blocked)
next
  case False
  obtain w1 res where gen: "generation e w st = (w1, res)"
    by (cases "generation e w st")
  show ?thesis
  proof (cases res)
    case (Inl err)
    with gen handleSubmit_failure [OF False assms(2), of e w w1 err] assms(1)
    show ?thesis by auto
  next
    case (Inr b)
    with gen handleSubmit_success [OF False assms(2), of e w w1 b] assms(1)
    show ?thesis by auto
  qed
qed

lemma perform_settles:
  assumes "perform ev (w, st) = (w', st')"
    and "\<not> isLoading st" and "error st = None \<or> generatedImage st = None"
  shows "\<not> isLoading st' \<and> (error st' = None \<or> generatedImage st' = None)"
proof (cases ev)
  case (EditPrompt s)
  with assms show ?thesis by auto
next
  case (Upload files)
  with assms show ?thesis
    by (cases "(files, w, st)" rule: handleImageUpload.cases)
       (auto simp: Let_def split: prod.splits)
next
  case RemoveUpload
  with assms show ?thesis by (auto simp: Let_def)
next
  case (Submit e)
  with assms handleSubmit_settles [of e w st w' st'] show ?thesis by simp
next
  case Download
  with assms show ?thesis by (auto simp: Let_def split: option.splits if_splits)
qed

lemma run_settles:
  "\<not> isLoading (snd (run evs)) \<and>
   (error (snd (run evs)) = None \<or> generatedImage (snd (run evs)) = None)"
proof (induction evs rule: rev_induct)
  case Nil
  show ?case by (simp add: run_def initial_state_def)
next
  case (snoc ev evs)
  obtain w st where c: "run evs = (w, st)" by (cases "run evs")
  obtain w' st' where c': "perform ev (w, st) = (w', st')" by (cases "perform ev (w, st)")
  from snoc c have "\<not> isLoading st" "error st = None \<or> generatedImage st = None"
    by simp_all
  from perform_settles [OF c' this] show ?case
    by (simp add: run_snoc c c')
qed

text \<open>
  C3. In the state reached from the freshly mounted component by any sequence of
  completed operations (editing the prompt, upload, remove upload, submit with either
  outcome, download), at most one of these holds: the loading flag is true, the error
  message is set, the generated image is set.
\<close>

theorem output_conditions_exclusive:
  "at_most_one [isLoading (snd (run evs)),
                error (snd (run evs)) \<noteq> None,
                generatedImage (snd (run evs)) \<noteq> None]"
  using run_settles [of evs] by (auto simp: at_most_one_def)


theorem output_conditions_exclusive_witness:
  "at_most_one
     [isLoading (snd (run [EditPrompt ''A red balloon'', Submit (answering ''Zm9v''),
                            Submit (rejecting (ServiceError ''quota exceeded''))])),
      error (snd (run [EditPrompt ''A red balloon'', Submit (answering ''Zm9v''),
                        Submit (rejecting (ServiceError ''quota exceeded''))])) \<noteq> None,
      generatedImage (snd (run [EditPrompt ''A red balloon'', Submit (answering ''Zm9v''),
                        Submit (rejecting (ServiceError ''quota exceeded''))])) \<noteq> None] \<and>
   error (snd (run [EditPrompt ''A red balloon'', Submit (answering ''Zm9v''),
                        Submit (rejecting (ServiceError ''quota exceeded''))]))
     = Some ''Failed to generate image. Please try again later.''"
proof -
  have "error (snd (run [EditPrompt ''A red balloon'', Submit (answering ''Zm9v''),
                        Submit (rejecting (ServiceError ''quota exceeded''))]))
     = Some ''Failed to generate image. Please try again later.''"
    by (simp add: example_defs)
  with output_conditions_exclusive
         [of "[EditPrompt ''A red balloon'', Submit (answering ''Zm9v''),
               Submit (rejecting (ServiceError ''quota exceeded''))]"]
  show ?thesis by simp
qed

subsection \<open>C6: uploading releases the previous preview once\<close>

lemma live_urls_revoke:
  "live_urls (revokeObjectURL p w) = filter (\<lambda>url. url \<noteq> p) (live_urls w)"
  by (simp add: live_urls_def revokeObjectURL_def conj_commute)

lemma live_urls_create:
  assumes "createObjectURL f w = (url, w')"
    and "set (revoked w) \<subseteq> fst ` set (created w)"
  shows "live_urls w' = live_urls w @ [url]"
proof -
  from createObjectURL_new [OF assms(1)]
  have new: "url \<notin> fst ` set (created w)"
    and w': "w' = w\<lparr>created := created w @ [(url, f)]\<rparr>"
    by simp_all
  from new assms(2) have "url \<notin> set (revoked w)" by blast
  with w' show ?thesis by (simp add: live_urls_def)
qed

lemma live_urls_created: "set (live_urls w) \<subseteq> fst ` set (created w) - set (revoked w)"
  by (auto simp: live_urls_def)

lemma handleImageUpload_selected:
  assumes "handleImageUpload (Some (f # fs)) (w, st) = (w', st')"
  shows "\<exists>url. url \<notin> fst ` set (created w) \<and>
           w' = w\<lparr>revoked := revoked w @
                     (case uploadedImage st of None \<Rightarrow> [] | Some u \<Rightarrow> [preview u]),
                   created := created w @ [(url, f)]\<rparr> \<and>
           st' = st\<lparr>uploadedImage := Some \<lparr>upload_file = f, preview = url\<rparr>,
                    generatedImage := None, error := None\<rparr>"
proof -
  let ?w1 = "case uploadedImage st of None \<Rightarrow> w | Some u \<Rightarrow> revokeObjectURL (preview u) w"
  obtain url w2 where mk: "createObjectURL f ?w1 = (url, w2)"
    by (cases "createObjectURL f ?w1")
  have w1: "?w1 = w\<lparr>revoked := revoked w @
      (case uploadedImage st of None \<Rightarrow> [] | Some u \<Rightarrow> [preview u])\<rparr>"
    by (simp add: revokeObjectURL_def split: option.split)
  from createObjectURL_new [OF mk] w1
  have "url \<notin> fst ` set (created w)"
    and "w2 = w\<lparr>revoked := revoked w @
            (case uploadedImage st of None \<Rightarrow> [] | Some u \<Rightarrow> [preview u]),
          created := created w @ [(url, f)]\<rparr>"
    by simp_all
  moreover from assms mk
  have "w' = w2" and "st' = st\<lparr>uploadedImage := Some \<lparr>upload_file = f, preview = url\<rparr>,
                    generatedImage := None, error := None\<rparr>"
    by (simp_all add: Let_def)
  ultimately show ?thesis by blast
qed

lemma urls_accounted_upload:
  assumes "urls_accounted (w, st)"
  shows "urls_accounted (handleImageUpload files (w, st))"
proof (cases "(files, w, st)" rule: handleImageUpload.cases)
  case (1 w0 st0)
  with assms show ?thesis by simp
next
  case (2 w0 st0)
  with assms show ?thesis by simp
next
  case (3 f fs w0 st0)
  obtain w' st' where res: "handleImageUpload (Some (f # fs)) (w, st) = (w', st')"
    by (cases "handleImageUpload (Some (f # fs)) (w, st)")
  from handleImageUpload_selected [OF res] obtain url
    where new: "url \<notin> fst ` set (created w)"
      and w': "w' = w\<lparr>revoked := revoked w @
                     (case uploadedImage st of None \<Rightarrow> [] | Some u \<Rightarrow> [preview u]),
                   created := created w @ [(url, f)]\<rparr>"
      and st': "st' = st\<lparr>uploadedImage := Some \<lparr>upload_file = f, preview = url\<rparr>,
                    generatedImage := None, error := None\<rparr>"
    by blast
  from assms have dist: "distinct (revoked w)"
    and sub: "set (revoked w) \<subseteq> fst ` set (created w)"
    and live: "live_urls w = (case uploadedImage st of None \<Rightarrow> [] | Some u \<Rightarrow> [preview u])"
    by (simp_all add: urls_accounted_def)
  from new sub have fresh: "url \<notin> set (revoked w)" by blast
  have "urls_accounted (w', st')"
  proof (cases "uploadedImage st")
    case None
    with dist sub live fresh w' st' show ?thesis
      by (auto simp: urls_accounted_def live_urls_def)
  next
    case (Some u)
    with live have "preview u \<in> set (live_urls w)" by simp
    with live_urls_created [of w]
    have old: "preview u \<in> fst ` set (created w)" "preview u \<notin> set (revoked w)"
      by auto
    with new have ne: "url \<noteq> preview u" by auto
    have "filter (\<lambda>x. x \<noteq> preview u \<and> x \<notin> set (revoked w)) (map fst (created w))
            = filter (\<lambda>x. x \<noteq> preview u) (live_urls w)"
      by (simp add: live_urls_def conj_commute)
    also have "\<dots> = []"
      using live Some by simp
    finally have gone:
      "filter (\<lambda>x. x \<noteq> preview u \<and> x \<notin> set (revoked w)) (map fst (created w)) = []" .
    from dist sub old fresh ne Some w' st' show ?thesis
      using gone by (auto simp: urls_accounted_def live_urls_def)
  qed
  with 3 res show ?thesis by simp
qed

lemma urls_accounted_remove:
  assumes "urls_accounted (w, st)"
  shows "urls_accounted (removeUploadedImage (w, st))"
proof -
  from assms have dist: "distinct (revoked w)"
    and sub: "set (revoked w) \<subseteq> fst ` set (created w)"
    and live: "live_urls w = (case uploadedImage st of None \<Rightarrow> [] | Some u \<Rightarrow> [preview u])"
    by (simp_all add: urls_accounted_def)
  show ?thesis
  proof (cases "uploadedImage st")
    case None
    with dist sub live show ?thesis
      by (auto simp: urls_accounted_def live_urls_def Let_def split: option.splits)
  next
    case (Some u)
    with live have "preview u \<in> set (live_urls w)" by simp
    with live_urls_created [of w]
    have old: "preview u \<in> fst ` set (created w)" "preview u \<notin> set (revoked w)"
      by auto
    have "filter (\<lambda>x. x \<noteq> preview u \<and> x \<notin> set (revoked w)) (map fst (created w))
            = filter (\<lambda>x. x \<noteq> preview u) (live_urls w)"
      by (simp add: live_urls_def conj_commute)
    also have "\<dots> = []"
      using live Some by simp
    finally have gone:
      "filter (\<lambda>x. x \<noteq> preview u \<and> x \<notin> set (revoked w)) (map fst (created w)) = []" .
    from dist sub old Some gone show ?thesis
      by (auto simp: urls_accounted_def live_urls_def revokeObjectURL_def Let_def
               split: option.splits)
  qed
qed

lemma urls_accounted_submit:
  assumes "urls_accounted (w, st)"
  shows "urls_accounted (handleSubmit e (w, st))"
proof -
  obtain w' st' where res: "handleSubmit e (w, st) = (w', st')"
    by (cases "handleSubmit e (w, st)")
  with handleSubmit_frame [of e w st]
  have "created w' = created w" "revoked w' = revoked w" "uploadedImage st' = uploadedImage st"
    by simp_all
  with assms res show ?thesis
    by (simp add: urls_accounted_def live_urls_def)
qed

lemma urls_accounted_download:
  assumes "urls_accounted (w, st)"
  shows "urls_accounted (handleDownload (w, st))"
  using assms
  by (auto simp: urls_accounted_def live_urls_def Let_def split: option.splits)

lemma urls_accounted_run: "urls_accounted (run evs)"
proof (induction evs rule: rev_induct)
  case Nil
  show ?case
    by (simp add: run_def urls_accounted_def live_urls_def initial_world_def initial_state_def)
next
  case (snoc ev evs)
  obtain w st where c: "run evs = (w, st)" by (cases "run evs")
  with snoc have inv: "urls_accounted (w, st)" by simp
  have "urls_accounted (perform ev (w, st))"
  proof (cases ev)
    case (EditPrompt s)
    with inv show ?thesis by (simp add: urls_accounted_def)
  next
    case (Upload files)
    with inv show ?thesis by (simp add: urls_accounted_upload)
  next
    case RemoveUpload
    with inv show ?thesis by (simp add: urls_accounted_remove del: removeUploadedImage.simps)
  next
    case (Submit e)
    with inv show ?thesis by (simp add: urls_accounted_submit)
  next
    case Download
    with inv show ?thesis by (simp add: urls_accounted_download del: handleDownload.simps)
  qed
  then show ?case by (simp add: run_snoc c)
qed

text \<open>
  C6. In every state and world, the upload handler invoked with a selected file revokes
  the previous upload's preview URL exactly once when there is one (and revokes nothing
  otherwise), stores the new file with a URL the browser has just created, one it never
  issued before, and sets the generated image and the error to \<open>null\<close>. Across a whole
  session no URL is revoked twice, and the URLs created and not yet revoked are exactly
  the preview of the current upload.
\<close>

theorem upload_releases_previous_once:
  assumes "handleImageUpload (Some (f # fs)) (w, st) = (w', st')"
  shows "revoked w' = revoked w @
           (case uploadedImage st of None \<Rightarrow> [] | Some u \<Rightarrow> [preview u]) \<and>
         (\<exists>url. url \<notin> fst ` set (created w) \<and>
                created w' = created w @ [(url, f)] \<and>
                uploadedImage st' = Some \<lparr>upload_file = f, preview = url\<rparr>) \<and>
         generatedImage st' = None \<and>
         error st' = None \<and>
         distinct (revoked (fst (run evs))) \<and>
         live_urls (fst (run evs)) =
           (case uploadedImage (snd (run evs)) of None \<Rightarrow> [] | Some u \<Rightarrow> [preview u])"
proof -
  from handleImageUpload_selected [OF assms] obtain url
    where "url \<notin> fst ` set (created w)"
      and "w' = w\<lparr>revoked := revoked w @
                     (case uploadedImage st of None \<Rightarrow> [] | Some u \<Rightarrow> [preview u]),
                   created := created w @ [(url, f)]\<rparr>"
      and "st' = st\<lparr>uploadedImage := Some \<lparr>upload_file = f, preview = url\<rparr>,
                    generatedImage := None, error := None\<rparr>"
    by blast
  then have "revoked w' = revoked w @
           (case uploadedImage st of None \<Rightarrow> [] | Some u \<Rightarrow> [preview u])"
    and "\<exists>url. url \<notin> fst ` set (created w) \<and>
                created w' = created w @ [(url, f)] \<and>
                uploadedImage st' = Some \<lparr>upload_file = f, preview = url\<rparr>"
    and "generatedImage st' = None" and "error st' = None"
    by auto
  moreover from urls_accounted_run [of evs]
  have "distinct (revoked (fst (run evs)))"
    and "live_urls (fst (run evs)) =
           (case uploadedImage (snd (run evs)) of None \<Rightarrow> [] | Some u \<Rightarrow> [preview u])"
    by (simp_all add: urls_accounted_def split: prod.splits)
  ultimately show ?thesis by blast
qed

theorem upload_releases_previous_once_witness:
  "revoked (fst (handleImageUpload (Some [png]) (run [Upload (Some [jpeg])]))) = [Blob 1] \<and>
   created (fst (handleImageUpload (Some [png]) (run [Upload (Some [jpeg])])))
     = [(Blob 1, jpeg), (Blob 2, png)] \<and>
   uploadedImage (snd (handleImageUpload (Some [png]) (run [Upload (Some [jpeg])])))
     = Some \<lparr>upload_file = png, preview = Blob 2\<rparr> \<and>
   generatedImage (snd (handleImageUpload (Some [png]) (run [Upload (Some [jpeg])]))) = None \<and>
   error (snd (handleImageUpload (Some [png]) (run [Upload (Some [jpeg])]))) = None \<and>
   revoked (fst (run [Upload (Some [jpeg]), Upload (Some [png]), RemoveUpload,
                      Upload (Some [jpeg])])) = [Blob 1, Blob 2] \<and>
   distinct (revoked (fst (run [Upload (Some [jpeg]), Upload (Some [png]), RemoveUpload,
                      Upload (Some [jpeg])]))) \<and>
   live_urls (fst (run [Upload (Some [jpeg]), Upload (Some [png]), RemoveUpload,
                      Upload (Some [jpeg])])) = [Blob 3]"
proof -
  let ?w = "initial_world\<lparr>created := [(Blob 1, jpeg)]\<rparr>"
  let ?st = "initial_state\<lparr>uploadedImage := Some \<lparr>upload_file = jpeg, preview = Blob 1\<rparr>\<rparr>"
  let ?c = "handleImageUpload (Some [png]) (?w, ?st)"
  let ?evs = "[Upload (Some [jpeg]), Upload (Some [png]), RemoveUpload, Upload (Some [jpeg])]"
  have first: "run [Upload (Some [jpeg])] = (?w, ?st)"
    by (simp add: run_def initial_world_def initial_state_def createObjectURL_def
          fresh_id_def Let_def)
  have step: "handleImageUpload (Some [png]) (?w, ?st) = (fst ?c, snd ?c)"
    by simp
  have session: "revoked (fst (run ?evs)) = [Blob 1, Blob 2]"
    "uploadedImage (snd (run ?evs)) = Some \<lparr>upload_file = jpeg, preview = Blob 3\<rparr>"
    by (simp_all add: run_def initial_world_def initial_state_def createObjectURL_def
          revokeObjectURL_def fresh_id_def Let_def)
  have made: "created (fst ?c) = [(Blob 1, jpeg), (Blob 2, png)]"
    "uploadedImage (snd ?c) = Some \<lparr>upload_file = png, preview = Blob 2\<rparr>"
    by (simp_all add: initial_world_def initial_state_def createObjectURL_def
          revokeObjectURL_def fresh_id_def Let_def)
  have before: "revoked ?w = []" "uploadedImage ?st = Some \<lparr>upload_file = jpeg, preview = Blob 1\<rparr>"
    by (simp_all add: initial_world_def)
  from upload_releases_previous_once [OF step, of ?evs] first session made before
  show ?thesis by simp
qed

subsection \<open>C7: removing the upload\<close>

text \<open>
  The file input is rendered on every render (lines 105 to 112), so the ref holds the
  element whenever a handler runs: no operation of a session detaches it.
\<close>

lemma handleSubmit_outside:
  "fileInputRef (fst (handleSubmit e (w, st))) = fileInputRef w"
proof (cases "trim (prompt st) = [] \<or> isLoading st")
  case True
  then show ?thesis by (simp add: handleSubmit_blocked)
next
  case False
  then have go: "trim (prompt st) \<noteq> []" "\<not> isLoading st" by simp_all
  obtain w1 res where gen: "generation e w st = (w1, res)"
    by (cases "generation e w st")
  then have w1: "fileInputRef w1 = fileInputRef w"
    using generation_requests [of e w st] by simp
  show ?thesis
  proof (cases res)
    case (Inl err)
    with gen handleSubmit_failure [OF go, of e w w1 err] w1 show ?thesis by simp
  next
    case (Inr b)
    with gen handleSubmit_success [OF go, of e w w1 b] w1 show ?thesis by simp
  qed
qed

lemma perform_input_attached:
  assumes "fileInputRef w \<noteq> None"
  shows "fileInputRef (fst (perform ev (w, st))) \<noteq> None"
proof (cases ev)
  case (EditPrompt s)
  with assms show ?thesis by simp
next
  case (Upload files)
  with assms show ?thesis
    by (cases "(files, w, st)" rule: handleImageUpload.cases)
       (auto simp: Let_def createObjectURL_def revokeObjectURL_def split: option.splits)
next
  case RemoveUpload
  with assms show ?thesis
    by (auto simp: Let_def revokeObjectURL_def split: option.splits)
next
  case (Submit e)
  with assms show ?thesis by (simp add: handleSubmit_outside)
next
  case Download
  with assms show ?thesis by (auto simp: Let_def split: option.splits)
qed

lemma run_input_attached: "fileInputRef (fst (run evs)) \<noteq> None"
proof (induction evs rule: rev_induct)
  case Nil
  show ?case by (simp add: run_def initial_world_def)
next
  case (snoc ev evs)
  obtain w st where c: "run evs = (w, st)" by (cases "run evs")
  with snoc have "fileInputRef w \<noteq> None" by simp
  from perform_input_attached [OF this, of ev st] show ?case
    by (simp add: run_snoc c)
qed

text \<open>
  C7. In every state in which an image is uploaded, with the file input attached to the
  ref, removing the upload revokes that image's preview URL, sets the uploaded image to
  \<open>null\<close> and sets the value of the file input to the empty string. In every session the
  file input is attached.
\<close>

theorem remove_upload_releases_and_resets:
  assumes "uploadedImage st = Some u"
    and "fileInputRef w = Some v"
    and "removeUploadedImage (w, st) = (w', st')"
  shows "revoked w' = revoked w @ [preview u] \<and>
         uploadedImage st' = None \<and>
         fileInputRef w' = Some [] \<and>
         fileInputRef (fst (run evs)) \<noteq> None"
  using assms run_input_attached [of evs] by (auto simp: Let_def revokeObjectURL_def)

theorem remove_upload_releases_and_resets_witness:
  "uploadedImage (initial_state\<lparr>uploadedImage := Some \<lparr>upload_file = jpeg, preview = Blob 1\<rparr>\<rparr>)
     = Some \<lparr>upload_file = jpeg, preview = Blob 1\<rparr> \<and>
   fileInputRef (initial_world\<lparr>created := [(Blob 1, jpeg)],
                               fileInputRef := Some ''C:/fakepath/cat.jpg''\<rparr>)
     = Some ''C:/fakepath/cat.jpg'' \<and>
   revoked (fst (removeUploadedImage
       (initial_world\<lparr>created := [(Blob 1, jpeg)], fileInputRef := Some ''C:/fakepath/cat.jpg''\<rparr>,
        initial_state\<lparr>uploadedImage := Some \<lparr>upload_file = jpeg, preview = Blob 1\<rparr>\<rparr>)))
     = [Blob 1] \<and>
   uploadedImage (snd (removeUploadedImage
       (initial_world\<lparr>created := [(Blob 1, jpeg)], fileInputRef := Some ''C:/fakepath/cat.jpg''\<rparr>,
        initial_state\<lparr>uploadedImage := Some \<lparr>upload_file = jpeg, preview = Blob 1\<rparr>\<rparr>)))
     = None \<and>
   fileInputRef (fst (removeUploadedImage
       (initial_world\<lparr>created := [(Blob 1, jpeg)], fileInputRef := Some ''C:/fakepath/cat.jpg''\<rparr>,
        initial_state\<lparr>uploadedImage := Some \<lparr>upload_file = jpeg, preview = Blob 1\<rparr>\<rparr>)))
     = Some []"
proof -
  let ?w = "initial_world\<lparr>created := [(Blob 1, jpeg)],
                          fileInputRef := Some ''C:/fakepath/cat.jpg''\<rparr>"
  let ?st = "initial_state\<lparr>uploadedImage := Some \<lparr>upload_file = jpeg, preview = Blob 1\<rparr>\<rparr>"
  let ?c = "removeUploadedImage (?w, ?st)"
  have up: "uploadedImage ?st = Some \<lparr>upload_file = jpeg, preview = Blob 1\<rparr>"
    by simp
  have input: "fileInputRef ?w = Some ''C:/fakepath/cat.jpg''"
    by simp
  have step: "removeUploadedImage (?w, ?st) = (fst ?c, snd ?c)"
    by simp
  have "revoked ?w = []"
    by (simp add: initial_world_def)
  with remove_upload_releases_and_resets [OF up input step] up input
  show ?thesis by simp
qed

subsection \<open>C8: downloading\<close>

text \<open>
  The generated image of a session is never the empty string: the only value the submit
  handler stores begins with \<open>data:image/png;base64,\<close>.
\<close>

lemma handleSubmit_generated:
  assumes "generatedImage st \<noteq> Some []"
  shows "generatedImage (snd (handleSubmit e (w, st))) \<noteq> Some []"
proof (cases "trim (prompt st) = [] \<or> isLoading st")
  case True
  with assms show ?thesis by (simp add: handleSubmit_blocked)
next
  case False
  then have go: "trim (prompt st) \<noteq> []" "\<not> isLoading st" by simp_all
  obtain w1 res where gen: "generation e w st = (w1, res)"
    by (cases "generation e w st")
  show ?thesis
  proof (cases res)
    case (Inl err)
    with gen handleSubmit_failure [OF go, of e w w1 err] show ?thesis by simp
  next
    case (Inr b)
    with gen handleSubmit_success [OF go, of e w w1 b] show ?thesis by simp
  qed
qed

lemma perform_generated:
  assumes "generatedImage st \<noteq> Some []"
  shows "generatedImage (snd (perform ev (w, st))) \<noteq> Some []"
proof (cases ev)
  case (EditPrompt s)
  with assms show ?thesis by simp
next
  case (Upload files)
  with assms show ?thesis
    by (cases "(files, w, st)" rule: handleImageUpload.cases)
       (auto simp: Let_def split: prod.splits)
next
  case RemoveUpload
  with assms show ?thesis by (auto simp: Let_def)
next
  case (Submit e)
  with assms show ?thesis by (simp add: handleSubmit_generated)
next
  case Download
  with assms show ?thesis by (auto simp: Let_def split: option.splits)
qed

lemma run_generated: "generatedImage (snd (run evs)) \<noteq> Some []"
proof (induction evs rule: rev_induct)
  case Nil
  show ?case by (simp add: run_def initial_state_def)
next
  case (snoc ev evs)
  obtain w st where c: "run evs = (w, st)" by (cases "run evs")
  with snoc have "generatedImage st \<noteq> Some []" by simp
  from perform_generated [OF this, of ev w] show ?case
    by (simp add: run_snoc c)
qed

text \<open>
  C8. In every state the download handler leaves the state, and so each of the five state
  variables, as it was. When there is no generated image it leaves the world as it was
  too, so nothing is saved. When there is one (a data URL, never the empty string in a
  session), one download is started, of that URL under the name "generated-image.png",
  and nothing else in the world changes: the anchor is gone from the body again.
\<close>

theorem download_changes_no_state:
  assumes "handleDownload (w, st) = (w', st')"
  shows "st' = st \<and>
         (generatedImage st = None \<longrightarrow> w' = w) \<and>
         (\<forall>url. generatedImage st = Some url \<and> url \<noteq> [] \<longrightarrow>
            saved w' = saved w @ [\<lparr>href = url, download = ''generated-image.png''\<rparr>] \<and>
            w'\<lparr>saved := saved w\<rparr> = w) \<and>
         generatedImage (snd (run evs)) \<noteq> Some []"
  using assms run_generated [of evs] by (auto simp: Let_def split: option.splits if_splits)

theorem download_changes_no_state_witness:
  "handleDownload (initial_world, initial_state) = (initial_world, initial_state) \<and>
   snd (handleDownload (run [EditPrompt ''A red balloon'', Submit (answering ''Zm9v'')]))
     = snd (run [EditPrompt ''A red balloon'', Submit (answering ''Zm9v'')]) \<and>
   saved (fst (handleDownload (run [EditPrompt ''A red balloon'', Submit (answering ''Zm9v'')])))
     = [\<lparr>href = ''data:image/png;base64,Zm9v'', download = ''generated-image.png''\<rparr>]"
proof -
  let ?evs = "[EditPrompt ''A red balloon'', Submit (answering ''Zm9v'')]"
  let ?idle = "handleDownload (initial_world, initial_state)"
  let ?c = "handleDownload (fst (run ?evs), snd (run ?evs))"
  have step0: "handleDownload (initial_world, initial_state) = (fst ?idle, snd ?idle)"
    by simp
  have none: "generatedImage initial_state = None"
    by (simp add: initial_state_def)
  have step: "handleDownload (fst (run ?evs), snd (run ?evs)) = (fst ?c, snd ?c)"
    by simp
  have shown: "generatedImage (snd (run ?evs)) = Some ''data:image/png;base64,Zm9v''"
    "saved (fst (run ?evs)) = []"
    by (simp_all add: example_defs)
  from download_changes_no_state [OF step0] none
  have "fst ?idle = initial_world" "snd ?idle = initial_state"
    by simp_all
  then have a: "handleDownload (initial_world, initial_state) = (initial_world, initial_state)"
    by (simp add: prod_eq_iff)
  from download_changes_no_state [OF step] shown
  have "snd ?c = snd (run ?evs)"
    and "saved (fst ?c) = [\<lparr>href = ''data:image/png;base64,Zm9v'', download = ''generated-image.png''\<rparr>]"
    by simp_all
  with a show ?thesis by simp
qed

subsection \<open>C9: removing the upload leaves the output alone\<close>

text \<open>
  C9. In every state, removing the upload leaves the generated image and the error as
  they were. A shown result and a shown error both survive the removal; uploading a new
  image clears the result.
\<close>

theorem remove_upload_keeps_output:
  assumes "removeUploadedImage (w, st) = (w', st')"
  shows "generatedImage st' = generatedImage st \<and> error st' = error st"
  using assms by (auto simp: Let_def)


theorem remove_upload_keeps_output_witness:
  "generatedImage (snd (removeUploadedImage
       (run [EditPrompt ''edit this'', Upload (Some [jpeg]), Submit (answering ''Zm9v'')])))
     = Some ''data:image/png;base64,Zm9v'' \<and>
   error (snd (removeUploadedImage
       (run [EditPrompt ''edit this'', Upload (Some [jpeg]),
             Submit (rejecting (ServiceError ''quota exceeded''))])))
     = Some ''Failed to generate image. Please try again later.'' \<and>
   generatedImage (snd (handleImageUpload (Some [png])
       (run [EditPrompt ''edit this'', Upload (Some [jpeg]), Submit (answering ''Zm9v'')])))
     = None"
proof -
  let ?ok = "run [EditPrompt ''edit this'', Upload (Some [jpeg]), Submit (answering ''Zm9v'')]"
  let ?ko = "run [EditPrompt ''edit this'', Upload (Some [jpeg]),
                  Submit (rejecting (ServiceError ''quota exceeded''))]"
  let ?a = "removeUploadedImage (fst ?ok, snd ?ok)"
  let ?b = "removeUploadedImage (fst ?ko, snd ?ko)"
  have shown: "generatedImage (snd ?ok) = Some ''data:image/png;base64,Zm9v''"
    by (simp add: example_defs)
  have failed: "error (snd ?ko) = Some ''Failed to generate image. Please try again later.''"
    by (simp add: example_defs)
  have cleared: "generatedImage (snd (handleImageUpload (Some [png]) ?ok)) = None"
    by (simp add: example_defs)
  have a: "removeUploadedImage (fst ?ok, snd ?ok) = (fst ?a, snd ?a)"
    by simp
  have b: "removeUploadedImage (fst ?ko, snd ?ko) = (fst ?b, snd ?b)"
    by simp
  from remove_upload_keeps_output [OF a] remove_upload_keeps_output [OF b]
    shown failed cleared
  show ?thesis by simp
qed

end
